theory Spec2Isabelle
  imports Main "HOL-Library.AList" "HOL-Library.Multiset"
begin

section \<open>Python values, strings and dictionaries\<close>

text \<open>
  A cell value of a row is \<open>None\<close>, a \<open>str\<close>, or another scalar (number, bool, date) that
  the readers hand over. The other scalars are kept abstract in the type variable \<open>'a\<close>;
  equality on \<open>'a\<close> stands for Python's dictionary-key equality. Strings are lists of
  8-bit characters and model ASCII text.
\<close>

datatype 'a pyval = VNone | VStr string | VObj 'a

text \<open>The exceptions that occur in the validation code and in the library calls it makes.\<close>

datatype pyexn = ValueError | TypeError | KeyError | AttributeError | ZeroDivisionError
  | InvalidOperation | OverflowError | ReError

text \<open>A \<open>dict\<close> in insertion order. \<open>AList.update\<close> is \<open>d[k] = v\<close>: it overwrites in place
  or appends a new key at the end.\<close>

type_synonym ('k, 'v) dict = "('k \<times> 'v) list"

type_synonym 'a row = "(string, 'a pyval) dict"

definition dict_get :: "('k, 'a pyval) dict \<Rightarrow> 'k \<Rightarrow> 'a pyval" where
  \<comment> \<open>\<open>d.get(k)\<close>: \<open>None\<close> when the key is absent\<close>
  "dict_get d k = (case map_of d k of None \<Rightarrow> VNone | Some v \<Rightarrow> v)"

definition dict_get_default :: "('k, 'v) dict \<Rightarrow> 'k \<Rightarrow> 'v \<Rightarrow> 'v" where
  \<comment> \<open>\<open>d.get(k, dflt)\<close>\<close>
  "dict_get_default d k dflt = (case map_of d k of None \<Rightarrow> dflt | Some v \<Rightarrow> v)"

definition py_isspace :: "char \<Rightarrow> bool" where
  "py_isspace c = ((of_char c :: nat) \<in> {9, 10, 11, 12, 13, 28, 29, 30, 31, 32})"

definition py_strip :: "string \<Rightarrow> string" where
  "py_strip s = rev (dropWhile py_isspace (rev (dropWhile py_isspace s)))"

definition lower_char :: "char \<Rightarrow> char" where
  "lower_char c =
     (case map_of (zip ''ABCDEFGHIJKLMNOPQRSTUVWXYZ'' ''abcdefghijklmnopqrstuvwxyz'') c of
        None \<Rightarrow> c
      | Some l \<Rightarrow> l)"

definition py_lower :: "string \<Rightarrow> string" where
  "py_lower s = map lower_char s"

fun py_join :: "string \<Rightarrow> string list \<Rightarrow> string" where
  "py_join sep [] = []"
| "py_join sep [x] = x"
| "py_join sep (x # y # ys) = x @ sep @ py_join sep (y # ys)"

text \<open>
  The Python library functions the validator calls. They are not code of the repository, so
  they are parameters of the model: each call either returns (\<open>Inr\<close>) or raises (\<open>Inl\<close>).
  \<open>str(value)\<close> returns for every scalar; \<open>obj_str\<close> is its result on a non-string scalar.
  A compiled pattern is the function telling whether \<open>rc.match(text)\<close> finds a match.
  \<open>json_dumps\<close> is \<open>json.dumps\<close> on the validated rows, which raises on a value it cannot
  serialise.
\<close>

record 'a pylib =
  int_call :: "'a pyval \<Rightarrow> pyexn + unit"
  float_call :: "'a pyval \<Rightarrow> pyexn + unit"
  decimal_call :: "string \<Rightarrow> pyexn + unit"
  fromisoformat :: "string \<Rightarrow> pyexn + unit"
  is_datetime :: "'a \<Rightarrow> bool"
  obj_str :: "'a \<Rightarrow> string"
  re_compile :: "string \<Rightarrow> pyexn + (string \<Rightarrow> bool)"
  json_dumps :: "'a row list \<Rightarrow> pyexn + unit"

definition py_str :: "'a pylib \<Rightarrow> 'a pyval \<Rightarrow> string" where
  "py_str lib v = (case v of VNone \<Rightarrow> ''None'' | VStr s \<Rightarrow> s | VObj a \<Rightarrow> obj_str lib a)"

section \<open>Rules\<close>

text \<open>
  A prepared field rule, as \<open>_validate_row\<close> reads it: the truth value of
  \<open>rule.get("required")\<close>, \<open>rule.get("type")\<close> and \<open>rule.get("_regex_compiled")\<close>.
\<close>

record field_rule =
  required :: bool
  rule_type :: "string option"
  regex_compiled :: "(string \<Rightarrow> bool) option"

type_synonym rules = "(string, field_rule) dict"

section \<open>Duplicate index (validator.py, build_duplicate_index)\<close>

type_synonym 'a key = "'a pyval list"

type_synonym 'a dup_index = "('a key, nat \<times> nat) dict"

definition row_key :: "string list \<Rightarrow> 'a row \<Rightarrow> 'a key" where
  \<comment> \<open>\<open>tuple(row.get(col) for col in unique_constraints)\<close>\<close>
  "row_key unique_constraints row = map (dict_get row) unique_constraints"

text \<open>The first loop: \<open>for idx, row in enumerate(records, start=1)\<close>, on the two
  dictionaries \<open>counts\<close> and \<open>first_seen\<close>.\<close>

fun index_rows :: "nat \<Rightarrow> 'a row list \<Rightarrow> string list
    \<Rightarrow> ('a key, nat) dict \<times> ('a key, nat) dict \<Rightarrow> ('a key, nat) dict \<times> ('a key, nat) dict" where
  "index_rows idx [] unique_constraints (counts, first_seen) = (counts, first_seen)"
| "index_rows idx (row # records) unique_constraints (counts, first_seen) =
     (let key = row_key unique_constraints row;
          counts' = AList.update key (dict_get_default counts key 0 + 1) counts;
          first_seen' = (if map_of first_seen key = None
                         then AList.update key idx first_seen else first_seen)
      in index_rows (Suc idx) records unique_constraints (counts', first_seen'))"

text \<open>The second loop: \<open>for k, cnt in counts.items(): dup_map[k] = (cnt, first_seen[k])\<close>.
  The subscript \<open>first_seen[k]\<close> raises \<open>KeyError\<close> on a missing key.\<close>

fun dup_entries :: "('a key \<times> nat) list \<Rightarrow> ('a key, nat) dict \<Rightarrow> 'a dup_index
    \<Rightarrow> pyexn + 'a dup_index" where
  "dup_entries [] first_seen dup_map = Inr dup_map"
| "dup_entries ((k, cnt) # items) first_seen dup_map =
     (case map_of first_seen k of
        None \<Rightarrow> Inl KeyError
      | Some f \<Rightarrow> dup_entries items first_seen (AList.update k (cnt, f) dup_map))"

definition build_duplicate_index :: "'a row list \<Rightarrow> string list \<Rightarrow> pyexn + 'a dup_index" where
  "build_duplicate_index records unique_constraints =
     (if unique_constraints = [] then Inr []
      else case index_rows 1 records unique_constraints ([], []) of
             (counts, first_seen) \<Rightarrow> dup_entries counts first_seen [])"

section \<open>Row validation (validator.py, _validate_row)\<close>

definition normalize :: "'a row \<Rightarrow> 'a row" where
  \<comment> \<open>\<open>{k.lower(): v for k, v in row.items()}\<close>\<close>
  "normalize row = fold (\<lambda>(k, v) d. AList.update (py_lower k) v d) row []"

definition blank_required :: "'a pylib \<Rightarrow> 'a pyval \<Rightarrow> bool" where
  \<comment> \<open>\<open>value is None or str(value).strip() == ""\<close>\<close>
  "blank_required lib v = (v = VNone \<or> py_strip (py_str lib v) = [])"

definition blank_optional :: "'a pyval \<Rightarrow> bool" where
  \<comment> \<open>\<open>value is None or value == ""\<close>; a non-string scalar never equals \<open>""\<close>\<close>
  "blank_optional v = (v = VNone \<or> v = VStr [])"

definition coerce :: "'a pylib \<Rightarrow> string option \<Rightarrow> 'a pyval \<Rightarrow> pyexn + unit" where
  \<comment> \<open>the body of the \<open>try\<close> block\<close>
  "coerce lib t v =
     (if t = Some ''int'' then int_call lib v
      else if t = Some ''float'' then float_call lib v
      else if t = Some ''decimal'' then decimal_call lib (py_str lib v)
      else if t = Some ''date'' then
        (case v of
           VObj a \<Rightarrow> if is_datetime lib a then Inr () else fromisoformat lib (py_str lib v)
         | _ \<Rightarrow> fromisoformat lib (py_str lib v))
      else if t = Some ''str'' then Inr ()
      else Inr ())"

definition typ_text :: "string option \<Rightarrow> string" where
  \<comment> \<open>\<open>f"{typ}"\<close>\<close>
  "typ_text t = (case t of None \<Rightarrow> ''None'' | Some s \<Rightarrow> s)"

definition required_msg :: "string \<Rightarrow> string" where
  "required_msg field = field @ '' is required''"

definition invalid_msg :: "string \<Rightarrow> string option \<Rightarrow> string" where
  "invalid_msg field t = field @ '' invalid '' @ typ_text t"

definition pattern_msg :: "string \<Rightarrow> string" where
  "pattern_msg field = field @ '' does not match pattern''"

definition duplicate_msg :: "string list \<Rightarrow> string" where
  "duplicate_msg unique_constraints = ''Duplicate based on '' @ py_join '', '' unique_constraints"

text \<open>One iteration of \<open>for field, rule in rules.items()\<close>: the violations it appends.
  \<open>except Exception\<close> turns every exception of the \<open>try\<close> block into a violation.\<close>

definition check_field :: "'a pylib \<Rightarrow> string \<Rightarrow> field_rule \<Rightarrow> 'a pyval \<Rightarrow> string list" where
  "check_field lib field rule v =
     (if required rule \<and> blank_required lib v then [required_msg field]
      else if blank_optional v then []
      else case coerce lib (rule_type rule) v of
             Inl e \<Rightarrow> [invalid_msg field (rule_type rule)]
           | Inr u \<Rightarrow>
               (case regex_compiled rule of
                  None \<Rightarrow> []
                | Some rc \<Rightarrow> if \<not> rc (py_str lib v) then [pattern_msg field] else []))"

fun field_rules_loop :: "'a pylib \<Rightarrow> 'a row \<Rightarrow> (string \<times> field_rule) list \<Rightarrow> string list
    \<Rightarrow> string list" where
  "field_rules_loop lib normalized [] errors = errors"
| "field_rules_loop lib normalized ((field, rule) # items) errors =
     field_rules_loop lib normalized items
       (errors @ check_field lib field rule (dict_get normalized field))"

text \<open>The duplicate policy: the violations it appends.\<close>

definition duplicate_errors :: "'a row \<Rightarrow> nat \<Rightarrow> 'a dup_index \<Rightarrow> string list \<Rightarrow> string
    \<Rightarrow> string list" where
  "duplicate_errors normalized row_index dup_index unique_constraints unique_mode =
     (if unique_constraints \<noteq> [] \<and> unique_mode \<noteq> ''ignore'' then
        (let key = row_key unique_constraints normalized in
         case dict_get_default dup_index key (1, row_index) of
           (cnt, first_idx) \<Rightarrow>
             if cnt > 1 then
               (if unique_mode = ''fail_all'' then [duplicate_msg unique_constraints]
                else if unique_mode = ''keep_first'' then
                  (if row_index \<noteq> first_idx then [duplicate_msg unique_constraints] else [])
                else [])
             else [])
      else [])"

definition row_errors :: "'a pylib \<Rightarrow> 'a row \<Rightarrow> nat \<Rightarrow> rules \<Rightarrow> 'a dup_index \<Rightarrow> string list
    \<Rightarrow> string \<Rightarrow> string list" where
  \<comment> \<open>the list \<open>errors\<close> when \<open>_validate_row\<close> reaches its last two assignments\<close>
  "row_errors lib row row_index rules dup_index unique_constraints unique_mode =
     (let normalized = normalize row in
      field_rules_loop lib normalized rules []
        @ duplicate_errors normalized row_index dup_index unique_constraints unique_mode)"

definition validate_row :: "'a pylib \<Rightarrow> 'a row \<Rightarrow> nat \<Rightarrow> rules \<Rightarrow> 'a dup_index \<Rightarrow> string list
    \<Rightarrow> string \<Rightarrow> 'a row" where
  "validate_row lib row row_index rules dup_index unique_constraints unique_mode =
     (let errors = row_errors lib row row_index rules dup_index unique_constraints unique_mode;
          normalized = normalize row;
          normalized = AList.update ''Valid''
                         (VStr (if errors = [] then ''Success'' else ''Fail'')) normalized;
          normalized = AList.update ''Remarks''
                         (VStr (if errors \<noteq> [] then py_join '', '' errors
                                else ''Validated Successfully'')) normalized
      in normalized)"

section \<open>Chunk validation (validator.py, validate_chunk)\<close>

text \<open>The loop \<open>for row in records_slice\<close> on \<open>(validated, success, failure, idx)\<close>.
  The subscript \<open>vr["Valid"]\<close> raises \<open>KeyError\<close> on a missing key.\<close>

fun validate_chunk_loop :: "'a pylib \<Rightarrow> 'a row list \<Rightarrow> rules \<Rightarrow> 'a dup_index \<Rightarrow> string list
    \<Rightarrow> string \<Rightarrow> 'a row list \<times> nat \<times> nat \<times> nat \<Rightarrow> pyexn + ('a row list \<times> nat \<times> nat)" where
  "validate_chunk_loop lib [] rules dup_index ucs mode (validated, success, failure, idx) =
     Inr (validated, success, failure)"
| "validate_chunk_loop lib (row # rest) rules dup_index ucs mode (validated, success, failure, idx) =
     (let vr = validate_row lib row idx rules dup_index ucs mode in
      case map_of vr ''Valid'' of
        None \<Rightarrow> Inl KeyError
      | Some valid \<Rightarrow>
          if valid = VStr ''Success''
          then validate_chunk_loop lib rest rules dup_index ucs mode
                 (validated @ [vr], success + 1, failure, idx + 1)
          else validate_chunk_loop lib rest rules dup_index ucs mode
                 (validated @ [vr], success, failure + 1, idx + 1))"

definition validate_chunk :: "'a pylib \<Rightarrow> 'a row list \<Rightarrow> nat \<Rightarrow> rules \<Rightarrow> 'a dup_index
    \<Rightarrow> string list \<Rightarrow> string \<Rightarrow> pyexn + ('a row list \<times> nat \<times> nat)" where
  "validate_chunk lib records_slice start_index rules dup_index unique_constraints unique_mode =
     validate_chunk_loop lib records_slice rules dup_index unique_constraints unique_mode
       ([], 0, 0, start_index)"

section \<open>Chunk scheduler (validation_pipeline.py, step 4)\<close>

definition CHUNK_SIZE :: nat where "CHUNK_SIZE = 5000"

definition WORKERS :: nat where "WORKERS = 4"

datatype audit_status = PENDING | RUNNING | COMPLETED | FAILED

text \<open>\<open>Percent processed total\<close> stands for the float
  \<open>round((processed / total_records) * 100, 2)\<close>, which is not computed here.\<close>

datatype percent = Percent nat nat

text \<open>The payloads handed to \<open>safe_publish\<close>.\<close>

datatype event =
    Init nat
  | Progress nat percent
  | Completed nat nat
  | Error pyexn

text \<open>The calls to the collaborators, in the order the pipeline makes them. The collaborators
  themselves (object store, audit table, event stream) are taken to succeed.\<close>

datatype 'a effect =
    Audit_Status audit_status
  | Read_S3
  | Read_Records nat
  | Update_Progress nat nat
  | Publish event
  | Upload_Excel "string list" "'a row list"
  | Upload_Json "'a row list"
  | Audit_Completed nat nat nat
  | Audit_Failed pyexn

definition safe_publish :: "bool \<Rightarrow> event \<Rightarrow> 'a effect list" where
  \<comment> \<open>publishes only \<open>if app is not None\<close>\<close>
  "safe_publish app ev = (if app then [Publish ev] else [])"

definition py_range_step :: "nat \<Rightarrow> nat \<Rightarrow> pyexn + nat list" where
  \<comment> \<open>\<open>range(0, stop, step)\<close>; a zero step raises \<open>ValueError\<close>\<close>
  "py_range_step stop step =
     (if step = 0 then Inl ValueError
      else Inr (map (\<lambda>k. k * step) [0 ..< (stop + step - 1) div step]))"

type_synonym 'a chunk_result = "'a row list \<times> nat \<times> nat"

record 'a sched_state =
  validated_records :: "'a row list"
  processed :: nat
  total_success :: nat
  total_failure :: nat
  effects :: "'a effect list"

text \<open>A failure carries the exception and the collaborator calls made before it.\<close>

type_synonym 'a failure = "pyexn \<times> 'a effect list"

text \<open>The body of the merge loop, for one entry of \<open>sorted(results, key=lambda x: x[0])\<close>.
  The division \<open>processed / total_records\<close> raises on a zero total.\<close>

definition merge_chunk :: "bool \<Rightarrow> nat \<Rightarrow> 'a sched_state \<Rightarrow> nat \<times> 'a chunk_result
    \<Rightarrow> 'a failure + 'a sched_state" where
  "merge_chunk app total_records st r =
     (case r of (start_idx, (chunk_valid, succ, fail)) \<Rightarrow>
        let processed' = processed st + length chunk_valid in
        if total_records = 0 then Inl (ZeroDivisionError, effects st)
        else Inr \<lparr> validated_records = validated_records st @ chunk_valid,
                   processed = processed',
                   total_success = total_success st + succ,
                   total_failure = total_failure st + fail,
                   effects = effects st @ [Update_Progress processed' total_records]
                     @ safe_publish app (Progress processed' (Percent processed' total_records)) \<rparr>)"

fun merge_results :: "bool \<Rightarrow> nat \<Rightarrow> (nat \<times> 'a chunk_result) list \<Rightarrow> 'a sched_state
    \<Rightarrow> 'a failure + 'a sched_state" where
  "merge_results app total_records [] st = Inr st"
| "merge_results app total_records (r # rs) st =
     (case merge_chunk app total_records st r of
        Inl f \<Rightarrow> Inl f
      | Inr st' \<Rightarrow> merge_results app total_records rs st')"

text \<open>The task group of one batch: every chunk of the batch is validated by
  \<open>_collect_results\<close>, with \<open>start_index = start_idx + 1\<close>. An exception in a task leaves the
  group.\<close>

fun collect_results :: "(nat \<times> (pyexn + 'a chunk_result)) list
    \<Rightarrow> pyexn + (nat \<times> 'a chunk_result) list" where
  "collect_results [] = Inr []"
| "collect_results ((start_idx, r) # rs) =
     (case r of
        Inl e \<Rightarrow> Inl e
      | Inr res \<Rightarrow> (case collect_results rs of
                      Inl e \<Rightarrow> Inl e
                    | Inr acc \<Rightarrow> Inr ((start_idx, res) # acc)))"

text \<open>
  The tasks of a batch append to \<open>results\<close> in the order they finish. That order is the
  parameter \<open>completion\<close>: given the number of the batch and the results in dispatch order,
  it returns them in completion order.
\<close>

type_synonym 'a completion =
  "nat \<Rightarrow> (nat \<times> 'a chunk_result) list \<Rightarrow> (nat \<times> 'a chunk_result) list"

definition run_batch :: "'a pylib \<Rightarrow> 'a completion \<Rightarrow> bool \<Rightarrow> nat \<Rightarrow> rules \<Rightarrow> 'a dup_index
    \<Rightarrow> string list \<Rightarrow> string \<Rightarrow> nat \<Rightarrow> (nat \<times> 'a row list) list \<Rightarrow> 'a sched_state
    \<Rightarrow> 'a failure + 'a sched_state" where
  "run_batch lib completion app total_records rules dup_index unique_cols unique_mode
      batch_start batch st =
     (case collect_results
             (map (\<lambda>(start_idx, rows).
                     (start_idx, validate_chunk lib rows (start_idx + 1) rules dup_index
                                   unique_cols unique_mode)) batch) of
        Inl e \<Rightarrow> Inl (e, effects st)
      | Inr results \<Rightarrow>
          merge_results app total_records (sort_key fst (completion batch_start results)) st)"

fun batches_loop :: "'a pylib \<Rightarrow> 'a completion \<Rightarrow> bool \<Rightarrow> nat \<Rightarrow> nat \<Rightarrow> rules
    \<Rightarrow> 'a dup_index \<Rightarrow> string list \<Rightarrow> string \<Rightarrow> (nat \<times> 'a row list) list \<Rightarrow> nat list
    \<Rightarrow> 'a sched_state \<Rightarrow> 'a failure + 'a sched_state" where
  "batches_loop lib completion app workers total_records rules dup_index unique_cols unique_mode
      chunks [] st = Inr st"
| "batches_loop lib completion app workers total_records rules dup_index unique_cols unique_mode
      chunks (batch_start # starts) st =
     (let batch = take workers (drop batch_start chunks) in
      case run_batch lib completion app total_records rules dup_index unique_cols unique_mode
             batch_start batch st of
        Inl f \<Rightarrow> Inl f
      | Inr st' \<Rightarrow>
          batches_loop lib completion app workers total_records rules dup_index unique_cols
            unique_mode chunks starts st')"

definition chunk_scheduler :: "'a pylib \<Rightarrow> 'a completion \<Rightarrow> bool \<Rightarrow> nat \<Rightarrow> nat
    \<Rightarrow> 'a row list \<Rightarrow> rules \<Rightarrow> 'a dup_index \<Rightarrow> string list \<Rightarrow> string \<Rightarrow> 'a effect list
    \<Rightarrow> 'a failure + 'a sched_state" where
  "chunk_scheduler lib completion app chunk_size workers records rules dup_index unique_cols
      unique_mode effects0 =
     (let total_records = length records in
      case py_range_step total_records chunk_size of
        Inl e \<Rightarrow> Inl (e, effects0)
      | Inr starts \<Rightarrow>
          (let chunks = map (\<lambda>i. (i, take chunk_size (drop i records))) starts;
               st = \<lparr> validated_records = [], processed = 0, total_success = 0,
                      total_failure = 0, effects = effects0 \<rparr>
           in (case py_range_step (length chunks) workers of
                 Inl e \<Rightarrow> Inl (e, effects0)
               | Inr batch_starts \<Rightarrow>
                   batches_loop lib completion app workers total_records rules dup_index
                     unique_cols unique_mode chunks batch_starts st)))"

section \<open>Rule preparation (validator.py, prep_rules_from_dict)\<close>

text \<open>A rule of the stored document: the truth value of its \<open>required\<close>, its \<open>type\<close> and
  its \<open>regex\<close>, each possibly missing.\<close>

record raw_rule =
  raw_required :: bool
  raw_type :: "string option"
  raw_regex :: "string option"

text \<open>The stored rule document: its three keys, each possibly missing, and the names of its
  other keys.\<close>

record rules_doc =
  doc_columns :: "(string \<times> raw_rule) list option"
  doc_unique_constraints :: "string list option"
  doc_unique_mode :: "string option"
  doc_other_keys :: "string list"

definition compile_rule :: "'a pylib \<Rightarrow> raw_rule \<Rightarrow> pyexn + field_rule" where
  \<comment> \<open>\<open>if "regex" in r and r["regex"]: r["_regex_compiled"] = re.compile(r["regex"])\<close>\<close>
  "compile_rule lib rule =
     (case raw_regex rule of
        None \<Rightarrow> Inr \<lparr> required = raw_required rule, rule_type = raw_type rule,
                      regex_compiled = None \<rparr>
      | Some p \<Rightarrow>
          if p = [] then Inr \<lparr> required = raw_required rule, rule_type = raw_type rule,
                                regex_compiled = None \<rparr>
          else (case re_compile lib p of
                  Inl e \<Rightarrow> Inl e
                | Inr rc \<Rightarrow> Inr \<lparr> required = raw_required rule, rule_type = raw_type rule,
                                   regex_compiled = Some rc \<rparr>))"

fun prep_columns :: "'a pylib \<Rightarrow> (string \<times> raw_rule) list \<Rightarrow> rules \<Rightarrow> pyexn + rules" where
  "prep_columns lib [] rules = Inr rules"
| "prep_columns lib ((field, rule) # items) rules =
     (case compile_rule lib rule of
        Inl e \<Rightarrow> Inl e
      | Inr r \<Rightarrow> prep_columns lib items (AList.update (py_lower field) r rules))"

definition prep_rules_from_dict :: "'a pylib \<Rightarrow> rules_doc
    \<Rightarrow> pyexn + (rules \<times> string list \<times> string)" where
  "prep_rules_from_dict lib cfg =
     (let rules_raw = (case doc_columns cfg of None \<Rightarrow> [] | Some c \<Rightarrow> c);
          unique_constraints =
            map py_lower (case doc_unique_constraints cfg of None \<Rightarrow> [] | Some u \<Rightarrow> u);
          unique_mode =
            py_lower (case doc_unique_mode cfg of None \<Rightarrow> ''ignore'' | Some m \<Rightarrow> m)
      in case prep_columns lib rules_raw [] of
           Inl e \<Rightarrow> Inl e
         | Inr rules \<Rightarrow> Inr (rules, unique_constraints, unique_mode))"

section \<open>Result writer (excel_writer.py, write_validated_excel_stream)\<close>

text \<open>The workbook that \<open>_write_workbook_bytes(records, headers)\<close> produces is kept abstract.\<close>

datatype 'a workbook = Workbook "string list" "'a row list"

definition write_validated_excel_stream :: "'a row list \<Rightarrow> 'a workbook option" where
  \<comment> \<open>\<open>if not records: return None\<close>; the headers are \<open>list(records[0].keys())\<close>\<close>
  "write_validated_excel_stream records =
     (case records of
        [] \<Rightarrow> None
      | r # rs \<Rightarrow> Some (Workbook (map fst r) records))"

section \<open>The pipeline (validation_pipeline.py, run_excel_validation_pipeline)\<close>

fun py_in :: "string \<Rightarrow> string \<Rightarrow> bool" where
  \<comment> \<open>\<open>needle in hay\<close> on strings\<close>
  "py_in needle [] = (needle = [])"
| "py_in needle (c # cs) = (take (length needle) (c # cs) = needle \<or> py_in needle cs)"

text \<open>
  What a run receives from its collaborators: the library, the completion order of the
  worker tasks, whether \<open>app\<close> is present, the content type of the stored object, the rows
  each reader yields on the stored bytes (or the exception it raises), and the stored rule
  document, if any.
\<close>

record 'a run_env =
  env_lib :: "'a pylib"
  env_completion :: "'a completion"
  env_app :: bool
  s3_content_type :: string
  excel_records :: "pyexn + 'a row list"
  csv_records :: "pyexn + 'a row list"
  stored_rules :: "rules_doc option"

definition doc_falsy :: "rules_doc \<Rightarrow> bool" where
  \<comment> \<open>the document is the empty dictionary\<close>
  "doc_falsy cfg = (doc_columns cfg = None \<and> doc_unique_constraints cfg = None
     \<and> doc_unique_mode cfg = None \<and> doc_other_keys cfg = [])"

text \<open>Steps 5 to 7: \<open>excel_bytes.getvalue()\<close> raises \<open>AttributeError\<close> when the writer
  returned \<open>None\<close>.\<close>

definition upload_results :: "'a pylib \<Rightarrow> bool \<Rightarrow> nat \<Rightarrow> 'a sched_state
    \<Rightarrow> 'a failure + 'a effect list" where
  "upload_results lib app total_records st =
     (case write_validated_excel_stream (validated_records st) of
        None \<Rightarrow> Inl (AttributeError, effects st)
      | Some (Workbook headers recs) \<Rightarrow>
          (case json_dumps lib (validated_records st) of
             Inl e \<Rightarrow> Inl (e, effects st @ [Upload_Excel headers recs])
           | Inr u \<Rightarrow>
               Inr (effects st
                    @ [Upload_Excel headers recs, Upload_Json (validated_records st)]
                    @ safe_publish app (Completed (total_success st) (total_failure st))
                    @ [Audit_Completed total_records (total_success st) (total_failure st)])))"

text \<open>Steps 3 and 4, on the rows read.\<close>

definition validate_records :: "'a run_env \<Rightarrow> nat \<Rightarrow> nat \<Rightarrow> 'a row list \<Rightarrow> 'a effect list
    \<Rightarrow> 'a failure + 'a sched_state" where
  "validate_records env chunk_size workers records effs =
     (case stored_rules env of
        None \<Rightarrow> Inl (ValueError, effs)
      | Some cfg \<Rightarrow>
          if doc_falsy cfg then Inl (ValueError, effs)
          else (case prep_rules_from_dict (env_lib env) cfg of
                  Inl e \<Rightarrow> Inl (e, effs)
                | Inr (rules, unique_cols, unique_mode) \<Rightarrow>
                    (case build_duplicate_index records unique_cols of
                       Inl e \<Rightarrow> Inl (e, effs)
                     | Inr dup_index \<Rightarrow>
                         chunk_scheduler (env_lib env) (env_completion env) (env_app env)
                           chunk_size workers records rules dup_index unique_cols unique_mode
                           effs)))"

text \<open>Step 2: the reader is chosen by the content type, and \<open>list(records_iter)\<close> reads
  every row; another content type raises \<open>ValueError\<close>.\<close>

definition read_records :: "'a run_env \<Rightarrow> pyexn + 'a row list" where
  "read_records env =
     (if py_in ''spreadsheetml'' (s3_content_type env) then excel_records env
      else if py_in ''csv'' (s3_content_type env) then csv_records env
      else Inl ValueError)"

text \<open>The body of the \<open>try\<close> block.\<close>

definition pipeline_body :: "'a run_env \<Rightarrow> nat \<Rightarrow> nat \<Rightarrow> 'a failure + 'a effect list" where
  "pipeline_body env chunk_size workers =
     (let effs0 = [Audit_Status RUNNING, Read_S3] in
      case read_records env of
        Inl e \<Rightarrow> Inl (e, effs0)
      | Inr records \<Rightarrow>
          (let total_records = length records;
               effs1 = effs0 @ [Read_Records total_records, Update_Progress 0 total_records]
                         @ safe_publish (env_app env) (Init total_records)
           in (case validate_records env chunk_size workers records effs1 of
                 Inl f \<Rightarrow> Inl f
               | Inr st \<Rightarrow> upload_results (env_lib env) (env_app env) total_records st)))"

text \<open>The \<open>except Exception\<close> handler records the failure, publishes it and raises again.\<close>

definition run_excel_validation_pipeline :: "'a run_env \<Rightarrow> 'a effect list \<times> (pyexn + unit)" where
  "run_excel_validation_pipeline env =
     (case pipeline_body env CHUNK_SIZE WORKERS of
        Inl (e, effs) \<Rightarrow>
          (effs @ [Audit_Failed e] @ safe_publish (env_app env) (Error e), Inl e)
      | Inr effs \<Rightarrow> (effs, Inr ()))"

section \<open>Notions used to state the properties\<close>

text \<open>A row as the readers yield it: a dictionary (distinct keys) whose keys are lowercased
  headers.\<close>

definition reader_row :: "'a row \<Rightarrow> bool" where
  "reader_row row = (distinct (map fst row) \<and> list_all (\<lambda>k. py_lower k = k) (map fst row))"

text \<open>The 1-based position at which a key occurs first in a sequence of keys.\<close>

definition first_ordinal :: "'k \<Rightarrow> 'k list \<Rightarrow> nat" where
  "first_ordinal k keys = Suc (length (takeWhile (\<lambda>k'. k' \<noteq> k) keys))"

text \<open>A row, paired with its ordinal, that gets no violation.\<close>

definition row_valid :: "'a pylib \<Rightarrow> rules \<Rightarrow> 'a dup_index \<Rightarrow> string list \<Rightarrow> string
    \<Rightarrow> nat \<times> 'a row \<Rightarrow> bool" where
  "row_valid lib rules dup_index ucs mode p =
     (row_errors lib (snd p) (fst p) rules dup_index ucs mode = [])"

text \<open>The rows validated one after the other, the first with ordinal \<open>start\<close>.\<close>

definition validated_from :: "'a pylib \<Rightarrow> rules \<Rightarrow> 'a dup_index \<Rightarrow> string list \<Rightarrow> string
    \<Rightarrow> nat \<Rightarrow> 'a row list \<Rightarrow> 'a row list" where
  "validated_from lib rules dup_index ucs mode start rows =
     map (\<lambda>(idx, row). validate_row lib row idx rules dup_index ucs mode) (enumerate start rows)"

text \<open>What \<open>_collect_results\<close> appends for a chunk \<open>(start_idx, rows)\<close>.\<close>

definition chunk_result :: "'a pylib \<Rightarrow> rules \<Rightarrow> 'a dup_index \<Rightarrow> string list \<Rightarrow> string
    \<Rightarrow> nat \<times> 'a row list \<Rightarrow> nat \<times> 'a chunk_result" where
  "chunk_result lib rules di ucs mode c =
     (fst c, validated_from lib rules di ucs mode (fst c + 1) (snd c),
        length (filter (row_valid lib rules di ucs mode) (enumerate (fst c + 1) (snd c))),
        length (filter (\<lambda>p. \<not> row_valid lib rules di ucs mode p) (enumerate (fst c + 1) (snd c))))"

text \<open>The progress calls of the merge loop, from a processed count and the lengths of the
  chunks merged after it.\<close>

fun progress_effects :: "bool \<Rightarrow> nat \<Rightarrow> nat \<Rightarrow> nat list \<Rightarrow> 'a effect list" where
  "progress_effects app tot p [] = []"
| "progress_effects app tot p (l # ls) =
     [Update_Progress (p + l) tot] @ safe_publish app (Progress (p + l) (Percent (p + l) tot))
       @ progress_effects app tot (p + l) ls"

text \<open>The number of chunks, and the processed count after each of them.\<close>

definition num_chunks :: "nat \<Rightarrow> nat \<Rightarrow> nat" where
  "num_chunks chunk_size tot = (tot + chunk_size - 1) div chunk_size"

definition progress_points :: "nat \<Rightarrow> nat \<Rightarrow> nat list" where
  "progress_points chunk_size tot =
     map (\<lambda>k. min ((k + 1) * chunk_size) tot) [0 ..< num_chunks chunk_size tot]"

text \<open>The chunks \<open>[(i, records[i:i+C]) for i in range(0, total_records, C)]\<close>.\<close>

definition chunks_of :: "nat \<Rightarrow> 'a list \<Rightarrow> (nat \<times> 'a list) list" where
  "chunks_of c xs = map (\<lambda>k. (k * c, take c (drop (k * c) xs))) [0 ..< num_chunks c (length xs)]"

text \<open>The progress events published, and the calls made by a scheduler run.\<close>

fun progress_events :: "'a effect list \<Rightarrow> event list" where
  "progress_events [] = []"
| "progress_events (Publish (Progress p q) # effs) = Progress p q # progress_events effs"
| "progress_events (e # effs) = progress_events effs"

definition sched_effects :: "'a failure + 'a sched_state \<Rightarrow> 'a effect list" where
  "sched_effects r = (case r of Inl f \<Rightarrow> snd f | Inr st \<Rightarrow> effects st)"

text \<open>A library instance for the closed examples below. On the values that the examples
  use it answers as CPython does: \<open>int("30")\<close> returns, \<open>int("bad")\<close> and \<open>int(" ")\<close>
  raise \<open>ValueError\<close>, \<open>re.compile("(")\<close> raises \<open>re.error\<close>.\<close>

definition digits :: "string \<Rightarrow> bool" where
  "digits s = (s \<noteq> [] \<and> list_all (\<lambda>c. c \<in> set ''0123456789'') s)"

definition stub_lib :: "nat pylib" where
  "stub_lib = \<lparr>
     int_call = (\<lambda>v. case v of
                    VNone \<Rightarrow> Inl TypeError
                  | VStr s \<Rightarrow> if digits s then Inr () else Inl ValueError
                  | VObj n \<Rightarrow> Inr ()),
     float_call = (\<lambda>v. case v of
                    VNone \<Rightarrow> Inl TypeError
                  | VStr s \<Rightarrow> if digits s then Inr () else Inl ValueError
                  | VObj n \<Rightarrow> Inr ()),
     decimal_call = (\<lambda>s. if digits s then Inr () else Inl InvalidOperation),
     fromisoformat = (\<lambda>s. Inl ValueError),
     is_datetime = (\<lambda>n. False),
     obj_str = (\<lambda>n. ''0''),
     re_compile = (\<lambda>p. if p = ''('' then Inl ReError else Inr (\<lambda>s. True)),
     json_dumps = (\<lambda>rows. Inr ()) \<rparr>"

text \<open>The scenario of the specification: \<open>age\<close> is a required \<open>int\<close>, the uniqueness key is
  \<open>email\<close>, and two rows share their email.\<close>

definition scenario_rules :: rules where
  "scenario_rules =
     [(''age'', \<lparr> required = True, rule_type = Some ''int'', regex_compiled = None \<rparr>)]"

definition scenario_rows :: "nat row list" where
  "scenario_rows = [[(''email'', VStr ''a@x.com''), (''age'', VStr ''30'')],
                    [(''email'', VStr ''a@x.com''), (''age'', VStr ''bad'')]]"

text \<open>Five rows for the scenario of chunk size 2 and width 2, two completion orders, and
  runs on a delimited-text file.\<close>

definition five_rows :: "nat row list" where
  "five_rows = [[(''age'', VStr ''1'')], [(''age'', VStr ''x'')], [(''age'', VStr ''3'')],
                [(''age'', VStr '''')], [(''age'', VStr ''5'')]]"

definition in_dispatch_order :: "'a completion" where
  "in_dispatch_order b results = results"

definition in_reverse_order :: "'a completion" where
  "in_reverse_order b results = rev results"

definition csv_env :: "nat row list \<Rightarrow> rules_doc option \<Rightarrow> nat run_env" where
  "csv_env rows doc = \<lparr> env_lib = stub_lib, env_completion = in_reverse_order, env_app = True,
     s3_content_type = ''text/csv'', excel_records = Inl ValueError, csv_records = Inr rows,
     stored_rules = doc \<rparr>"

definition scenario_doc :: rules_doc where
  "scenario_doc = \<lparr> doc_columns = Some [(''Age'', \<lparr> raw_required = True, raw_type = Some ''int'',
                                                    raw_regex = None \<rparr>)],
     doc_unique_constraints = Some [''Email''], doc_unique_mode = Some ''FAIL_ALL'',
     doc_other_keys = [] \<rparr>"

definition bad_regex_doc :: rules_doc where
  "bad_regex_doc = \<lparr> doc_columns = Some [(''age'', \<lparr> raw_required = False, raw_type = Some ''str'',
                                                     raw_regex = Some ''('' \<rparr>)],
     doc_unique_constraints = None, doc_unique_mode = None, doc_other_keys = [] \<rparr>"

section \<open>Evaluation of the closed examples\<close>

lemma stub_lib_sel:
  "int_call stub_lib v = (case v of
                    VNone \<Rightarrow> Inl TypeError
                  | VStr s \<Rightarrow> if digits s then Inr () else Inl ValueError
                  | VObj n \<Rightarrow> Inr ())"
  "float_call stub_lib v = (case v of
                    VNone \<Rightarrow> Inl TypeError
                  | VStr s \<Rightarrow> if digits s then Inr () else Inl ValueError
                  | VObj n \<Rightarrow> Inr ())"
  "decimal_call stub_lib s = (if digits s then Inr () else Inl InvalidOperation)"
  "fromisoformat stub_lib s = Inl ValueError"
  "is_datetime stub_lib n = False"
  "obj_str stub_lib n = ''0''"
  "re_compile stub_lib p = (if p = ''('' then Inl ReError else Inr (\<lambda>s. True))"
  "json_dumps stub_lib rows = Inr ()"
  by (simp_all add: stub_lib_def)

lemmas eval_defs = scenario_rules_def scenario_rows_def stub_lib_sel digits_def reader_row_def
  py_lower_def lower_char_def row_key_def dict_get_def first_ordinal_def normalize_def
  check_field_def blank_required_def blank_optional_def coerce_def py_str_def py_strip_def
  py_isspace_def invalid_msg_def required_msg_def pattern_msg_def duplicate_msg_def typ_text_def

section \<open>The duplicate index\<close>

lemma index_rows_counts:
  "index_rows idx records ucs (counts, fs) = (counts', fs') \<Longrightarrow>
   map_of counts' k =
     (if count_list (map (row_key ucs) records) k = 0 then map_of counts k
      else Some (dict_get_default counts k 0 + count_list (map (row_key ucs) records) k))"
proof (induction records arbitrary: idx counts fs)
  case Nil
  then show ?case by simp
next
  case (Cons row records)
  show ?case
    using Cons.prems
    by (auto simp: Let_def dict_get_default_def AList.update_conv'
        dest!: Cons.IH split: option.splits if_splits)
qed

lemma index_rows_first:
  "index_rows idx records ucs (counts, fs) = (counts', fs') \<Longrightarrow>
   map_of fs' k =
     (case map_of fs k of
        Some f \<Rightarrow> Some f
      | None \<Rightarrow> if k \<in> set (map (row_key ucs) records)
                then Some (idx + length (takeWhile (\<lambda>k'. k' \<noteq> k) (map (row_key ucs) records)))
                else None)"
proof (induction records arbitrary: idx counts fs)
  case Nil
  then show ?case by (simp split: option.splits)
next
  case (Cons row records)
  show ?case
    using Cons.prems
    by (auto simp: Let_def AList.update_conv'
        dest!: Cons.IH split: option.splits if_splits)
qed

lemma index_rows_distinct:
  "index_rows idx records ucs (counts, fs) = (counts', fs') \<Longrightarrow> distinct (map fst counts)
   \<Longrightarrow> distinct (map fst counts')"
proof (induction records arbitrary: idx counts fs)
  case Nil
  then show ?case by simp
next
  case (Cons row records)
  show ?case
    using Cons.prems
    by (auto simp: Let_def AList.distinct_update dest!: Cons.IH split: if_splits)
qed

text \<open>The subscript \<open>first_seen[k]\<close> never fails when every counted key has been seen.\<close>

lemma dup_entries_ok:
  "distinct (map fst items) \<Longrightarrow> (\<forall>k \<in> fst ` set items. map_of fs k \<noteq> None) \<Longrightarrow>
   \<exists>dm'. dup_entries items fs dm = Inr dm' \<and>
     (\<forall>k. map_of dm' k =
        (case map_of items k of None \<Rightarrow> map_of dm k | Some c \<Rightarrow> Some (c, the (map_of fs k))))"
proof (induction items arbitrary: dm)
  case Nil
  then show ?case by simp
next
  case (Cons p items)
  obtain k c where p: "p = (k, c)" by (cases p)
  from Cons.prems p obtain f where f: "map_of fs k = Some f" by auto
  from Cons.prems p have knot: "map_of items k = None"
    by (simp add: map_of_eq_None_iff)
  from Cons.prems have "distinct (map fst items)" "\<forall>k \<in> fst ` set items. map_of fs k \<noteq> None"
    by auto
  from Cons.IH[OF this, of "AList.update k (c, f) dm"]
  obtain dm' where dm': "dup_entries items fs (AList.update k (c, f) dm) = Inr dm'"
    "\<forall>k'. map_of dm' k' =
       (case map_of items k' of None \<Rightarrow> map_of (AList.update k (c, f) dm) k'
        | Some c' \<Rightarrow> Some (c', the (map_of fs k')))" by blast
  show ?case using p f dm' knot
    by (auto simp: AList.update_conv' split: option.splits)
qed

text \<open>The index maps every key of the rows to its number of occurrences and to the ordinal
  of its first occurrence, and holds no other key.\<close>

lemma build_duplicate_index_correct:
  assumes "ucs \<noteq> []"
  shows "\<exists>di. build_duplicate_index records ucs = Inr di \<and>
    (\<forall>k. map_of di k =
       (if k \<in> set (map (row_key ucs) records)
        then Some (count_list (map (row_key ucs) records) k,
                   first_ordinal k (map (row_key ucs) records))
        else None))"
proof -
  obtain counts fs where ir: "index_rows 1 records ucs ([], []) = (counts, fs)"
    by (cases "index_rows 1 records ucs ([], [])")
  let ?keys = "map (row_key ucs) records"
  have c: "map_of counts k = (if count_list ?keys k = 0 then None else Some (count_list ?keys k))"
    for k
    using index_rows_counts[OF ir, of k] by (simp add: dict_get_default_def)
  have f: "map_of fs k = (if k \<in> set ?keys then Some (first_ordinal k ?keys) else None)" for k
    using index_rows_first[OF ir, of k] by (simp add: first_ordinal_def)
  have d: "distinct (map fst counts)" using index_rows_distinct[OF ir] by simp
  have dom: "\<forall>k \<in> fst ` set counts. map_of fs k \<noteq> None"
  proof
    fix k assume "k \<in> fst ` set counts"
    then have "map_of counts k \<noteq> None" by (simp add: map_of_eq_None_iff)
    then have "count_list ?keys k \<noteq> 0" using c[of k] by (auto split: if_splits)
    then have "k \<in> set ?keys" using count_list_0_iff by metis
    then show "map_of fs k \<noteq> None" using f[of k] by simp
  qed
  from dup_entries_ok[OF d dom, of "[]"] obtain di where di: "dup_entries counts fs [] = Inr di"
    "\<forall>k. map_of di k =
       (case map_of counts k of None \<Rightarrow> map_of [] k | Some c \<Rightarrow> Some (c, the (map_of fs k)))"
    by blast
  have "map_of di k =
      (if k \<in> set ?keys then Some (count_list ?keys k, first_ordinal k ?keys) else None)" for k
    using di(2) c[of k] f[of k] by (auto simp: count_list_0_iff split: option.splits if_splits)
  then show ?thesis using assms ir di(1) by (simp add: build_duplicate_index_def)
qed

section \<open>Row validation\<close>

lemma update_fresh: "k \<notin> fst ` set acc \<Longrightarrow> AList.update k v acc = acc @ [(k, v)]"
  by (induction acc) auto

lemma normalize_aux:
  "distinct (map fst row) \<Longrightarrow> (\<forall>k \<in> fst ` set row. py_lower k = k)
   \<Longrightarrow> fst ` set row \<inter> fst ` set acc = {}
   \<Longrightarrow> fold (\<lambda>(k, v) d. AList.update (py_lower k) v d) row acc = acc @ row"
proof (induction row arbitrary: acc)
  case Nil
  then show ?case by simp
next
  case (Cons p row)
  obtain k v where p: "p = (k, v)" by (cases p)
  from Cons.prems p have kacc: "k \<notin> fst ` set acc" by auto
  from Cons.prems p have low: "py_lower k = k" by simp
  have "fold (\<lambda>(k, v) d. AList.update (py_lower k) v d) row (acc @ [(k, v)])
      = (acc @ [(k, v)]) @ row"
    using Cons.prems p by (intro Cons.IH) (auto simp: rev_image_eqI)
  then show ?case using p low update_fresh[OF kacc] by simp
qed

text \<open>Lowercasing the keys leaves a reader's row as it is.\<close>

lemma normalize_reader_row: "reader_row row \<Longrightarrow> normalize row = row"
  using normalize_aux[of row "[]"] by (simp add: reader_row_def normalize_def list_all_iff)


lemma duplicate_errors_index:
  assumes "map_of di (row_key ucs n) = Some (cnt, first_idx)" "ucs \<noteq> []"
  shows "duplicate_errors n idx di ucs mode =
     (if mode \<noteq> ''ignore'' \<and> cnt > 1
         \<and> (mode = ''fail_all'' \<or> (mode = ''keep_first'' \<and> idx \<noteq> first_idx))
      then [duplicate_msg ucs] else [])"
  using assms by (auto simp: duplicate_errors_def dict_get_default_def)

lemma validate_row_Valid:
  "map_of (validate_row lib row idx rules di ucs mode) ''Valid'' =
     Some (VStr (if row_errors lib row idx rules di ucs mode = [] then ''Success'' else ''Fail''))"
  by (simp add: validate_row_def Let_def AList.update_conv')


text \<open>
  Claim C3. Take rows as the readers yield them and a non-empty uniqueness key, and a row
  whose key tuple occurs more than once in the sequence. The index is built without error and
  records, for that key, its number of occurrences and its first-seen ordinal. Under
  \<open>fail_all\<close> the duplicate policy appends the violation naming the key fields to the row's
  violations. Under \<open>keep_first\<close> it appends that violation unless the row's 1-based ordinal
  is the first-seen ordinal of its key, and appends nothing for the first-seen row.
\<close>

theorem duplicate_policy:
  assumes "\<forall>row \<in> set records. reader_row row"
    and "unique_constraints \<noteq> []"
    and "i < length records"
    and "1 < count_list (map (row_key unique_constraints) records)
               (row_key unique_constraints (records ! i))"
  shows "\<exists>dup_index. build_duplicate_index records unique_constraints = Inr dup_index \<and>
     map_of dup_index (row_key unique_constraints (records ! i)) =
       Some (count_list (map (row_key unique_constraints) records)
               (row_key unique_constraints (records ! i)),
             first_ordinal (row_key unique_constraints (records ! i))
               (map (row_key unique_constraints) records)) \<and>
     row_errors lib (records ! i) (Suc i) rules dup_index unique_constraints ''fail_all'' =
       field_rules_loop lib (normalize (records ! i)) rules []
         @ [duplicate_msg unique_constraints] \<and>
     row_errors lib (records ! i) (Suc i) rules dup_index unique_constraints ''keep_first'' =
       field_rules_loop lib (normalize (records ! i)) rules [] @
         (if Suc i = first_ordinal (row_key unique_constraints (records ! i))
                       (map (row_key unique_constraints) records)
          then [] else [duplicate_msg unique_constraints])"
proof -
  let ?keys = "map (row_key unique_constraints) records"
  let ?row = "records ! i"
  let ?k = "row_key unique_constraints ?row"
  from build_duplicate_index_correct[OF assms(2), of records]
  obtain di where di: "build_duplicate_index records unique_constraints = Inr di"
    and look: "\<And>k. map_of di k =
      (if k \<in> set ?keys then Some (count_list ?keys k, first_ordinal k ?keys) else None)"
    by blast
  have mem: "?k \<in> set ?keys" using assms(3) by simp
  have entry: "map_of di ?k = Some (count_list ?keys ?k, first_ordinal ?k ?keys)"
    using look[of ?k] mem by simp
  have norm: "normalize ?row = ?row"
    using assms(1,3) by (simp add: normalize_reader_row)
  have fa: "duplicate_errors ?row (Suc i) di unique_constraints ''fail_all'' =
      [duplicate_msg unique_constraints]"
    using duplicate_errors_index[OF entry assms(2)] assms(4) by simp
  have kf: "duplicate_errors ?row (Suc i) di unique_constraints ''keep_first'' =
      (if Suc i = first_ordinal ?k ?keys then [] else [duplicate_msg unique_constraints])"
    using duplicate_errors_index[OF entry assms(2)] assms(4) by simp
  show ?thesis
    using di entry fa kf norm by (simp add: row_errors_def)
qed

text \<open>The scenario of the specification, at its second row (ordinal 2).\<close>

theorem duplicate_policy_witness:
  "list_all reader_row scenario_rows \<and>
   1 < count_list (map (row_key [''email'']) scenario_rows)
         (row_key [''email''] (scenario_rows ! 1)) \<and>
   (\<exists>dup_index. build_duplicate_index scenario_rows [''email''] = Inr dup_index \<and>
     map_of dup_index [VStr ''a@x.com''] = Some (2, 1) \<and>
     row_errors stub_lib (scenario_rows ! 1) 2 scenario_rules dup_index [''email''] ''fail_all'' =
       [''age invalid int'', ''Duplicate based on email''] \<and>
     row_errors stub_lib (scenario_rows ! 1) 2 scenario_rules dup_index [''email''] ''keep_first''
       = [''age invalid int'', ''Duplicate based on email''])"
proof -
  have h1: "\<forall>row \<in> set scenario_rows. reader_row row"
    by (simp add: eval_defs)
  have h2: "[''email''] \<noteq> []" by simp
  have h3: "1 < length scenario_rows" by (simp add: scenario_rows_def)
  have h4: "1 < count_list (map (row_key [''email'']) scenario_rows)
                  (row_key [''email''] (scenario_rows ! 1))"
    by (simp add: eval_defs)
  from duplicate_policy[OF h1 h2 h3 h4, of stub_lib scenario_rules]
  obtain di where di: "build_duplicate_index scenario_rows [''email''] = Inr di"
    and e: "map_of di (row_key [''email''] (scenario_rows ! 1)) =
       Some (count_list (map (row_key [''email'']) scenario_rows)
               (row_key [''email''] (scenario_rows ! 1)),
             first_ordinal (row_key [''email''] (scenario_rows ! 1))
               (map (row_key [''email'']) scenario_rows))"
    and fa: "row_errors stub_lib (scenario_rows ! 1) (Suc 1) scenario_rules di [''email'']
        ''fail_all'' =
       field_rules_loop stub_lib (normalize (scenario_rows ! 1)) scenario_rules []
         @ [duplicate_msg [''email'']]"
    and kf: "row_errors stub_lib (scenario_rows ! 1) (Suc 1) scenario_rules di [''email'']
        ''keep_first'' =
       field_rules_loop stub_lib (normalize (scenario_rows ! 1)) scenario_rules [] @
         (if Suc 1 = first_ordinal (row_key [''email''] (scenario_rows ! 1))
                       (map (row_key [''email'']) scenario_rows)
          then [] else [duplicate_msg [''email'']])"
    by blast
  have e': "map_of di [VStr ''a@x.com''] = Some (2, 1)"
    using e by (simp add: eval_defs)
  have fa': "row_errors stub_lib (scenario_rows ! 1) 2 scenario_rules di [''email''] ''fail_all''
      = [''age invalid int'', ''Duplicate based on email'']"
    using fa[unfolded Suc_1] by (simp add: eval_defs)
  have kf': "row_errors stub_lib (scenario_rows ! 1) 2 scenario_rules di [''email'']
      ''keep_first'' = [''age invalid int'', ''Duplicate based on email'']"
    using kf[unfolded Suc_1] by (simp add: eval_defs)
  have h1': "list_all reader_row scenario_rows"
    using h1 by (simp add: list_all_iff)
  show ?thesis using h1' h4 di e' fa' kf' by blast
qed

text \<open>
  Claim C4. With an empty \<open>unique_constraints\<close> list, \<open>build_duplicate_index\<close> returns the
  empty index for every row sequence, and for every row, index and mode the duplicate policy
  of \<open>_validate_row\<close> appends no violation: the row's violations are those of the field rules.
\<close>

theorem empty_unique_constraints:
  "build_duplicate_index records [] = Inr [] \<and>
   duplicate_errors normalized row_index dup_index [] unique_mode = [] \<and>
   row_errors lib row row_index rules dup_index [] unique_mode =
     field_rules_loop lib (normalize row) rules []"
  by (simp add: build_duplicate_index_def duplicate_errors_def row_errors_def)



section \<open>No exception leaves the row validator\<close>





section \<open>The two blank tests\<close>



section \<open>The chunk scheduler\<close>

lemma validate_chunk_loop_result:
  "validate_chunk_loop lib rows rules di ucs mode (validated, success, failure, idx) =
     Inr (validated @ validated_from lib rules di ucs mode idx rows,
          success + length (filter (row_valid lib rules di ucs mode) (enumerate idx rows)),
          failure + length (filter (\<lambda>p. \<not> row_valid lib rules di ucs mode p) (enumerate idx rows)))"
proof (induction rows arbitrary: validated success failure idx)
  case Nil
  then show ?case by (simp add: validated_from_def)
next
  case (Cons row rows)
  show ?case
    by (simp add: Let_def validate_row_Valid Cons.IH validated_from_def row_valid_def)
qed

lemma validate_chunk_result:
  "validate_chunk lib rows start rules di ucs mode =
     Inr (snd (chunk_result lib rules di ucs mode (start - 1, rows)))" if "start > 0"
  using that by (simp add: validate_chunk_def validate_chunk_loop_result chunk_result_def)

lemma collect_results_batch:
  "collect_results (map (\<lambda>(start_idx, rows).
       (start_idx, validate_chunk lib rows (start_idx + 1) rules di ucs mode)) batch) =
   Inr (map (chunk_result lib rules di ucs mode) batch)"
  by (induction batch) (auto simp: validate_chunk_result chunk_result_def)

lemma same_keys_same_list:
  assumes "map fst as = map fst bs" "set as = set bs" "inj_on fst (set as)"
  shows "as = bs"
proof (rule nth_equalityI)
  show len: "length as = length bs" using assms(1) by (metis length_map)
  fix i assume i: "i < length as"
  have "fst (as ! i) = fst (bs ! i)" using assms(1) i len by (metis nth_map)
  moreover have "as ! i \<in> set as" using i by simp
  moreover have "bs ! i \<in> set as" using i len assms(2) by simp
  ultimately show "as ! i = bs ! i" using assms(3) by (auto dest: inj_onD)
qed

lemma sort_key_perm_id:
  assumes "mset ys = mset xs" "sorted_wrt (<) (map fst xs)"
  shows "sort_key fst ys = (xs :: (nat \<times> 'b) list)"
proof -
  have d: "distinct (map fst xs)" and s: "sorted (map fst xs)"
    using assms(2) strict_sorted_iff by blast+
  have m: "mset (map fst (sort_key fst ys)) = mset (map fst xs)"
    using assms(1) by simp
  have d': "distinct (map fst (sort_key fst ys))"
    using m d by (metis mset_eq_imp_distinct_iff)
  have k: "map fst (sort_key fst ys) = map fst xs"
    using sorted_distinct_set_unique[OF _ d' s d] m by (metis mset_eq_setD sorted_sort_key)
  have st: "set (sort_key fst ys) = set xs"
    using assms(1) by (metis mset_eq_setD set_sort)
  have inj: "inj_on fst (set (sort_key fst ys))"
    using d' by (simp add: distinct_map)
  show ?thesis by (rule same_keys_same_list[OF k st inj])
qed

lemma merge_results_append:
  "merge_results app tot (xs @ ys) st =
     (case merge_results app tot xs st of
        Inl f \<Rightarrow> Inl f
      | Inr st' \<Rightarrow> merge_results app tot ys st')"
  by (induction xs arbitrary: st) (auto split: sum.splits)

lemma fst_chunk_result [simp]: "fst (chunk_result lib rules di ucs mode c) = fst c"
  by (simp add: chunk_result_def)

lemma run_batch_merge:
  assumes "\<And>b xs. mset (completion b xs) = mset xs"
    and "sorted_wrt (<) (map fst batch)"
  shows "run_batch lib completion app tot rules di ucs mode batch_start batch st =
     merge_results app tot (map (chunk_result lib rules di ucs mode) batch) st"
proof -
  let ?rs = "map (chunk_result lib rules di ucs mode) batch"
  have keys: "map fst ?rs = map fst batch" by (simp add: comp_def)
  have "sorted_wrt (<) (map fst ?rs)" unfolding keys by (rule assms(2))
  then have "sort_key fst (completion batch_start ?rs) = ?rs"
    by (intro sort_key_perm_id assms(1))
  then show ?thesis unfolding run_batch_def collect_results_batch by simp
qed

lemma batches_loop_merge:
  assumes "\<And>b xs. mset (completion b xs) = mset xs"
    and "sorted_wrt (<) (map fst chunks)"
  shows "batches_loop lib completion app workers tot rules di ucs mode chunks starts st =
     merge_results app tot
       (map (chunk_result lib rules di ucs mode)
          (concat (map (\<lambda>b. take workers (drop b chunks)) starts))) st"
proof (induction starts arbitrary: st)
  case Nil
  then show ?case by simp
next
  case (Cons b starts)
  have s: "sorted_wrt (<) (map fst (take workers (drop b chunks)))"
    using assms(2) by (simp add: take_map[symmetric] drop_map[symmetric])
  show ?case
    by (simp add: Let_def run_batch_merge[OF assms(1) s] merge_results_append Cons.IH
        split: sum.splits)
qed

lemma concat_take_drop:
  "concat (map (\<lambda>k. take c (drop (k * c) xs)) [0..<m]) = take (m * c) xs"
proof (induction m)
  case 0
  then show ?case by simp
next
  case (Suc m)
  have "take (m * c + c) xs = take (m * c) xs @ take c (drop (m * c) xs)"
    by (rule take_add)
  then show ?case using Suc by (simp add: add.commute)
qed

lemma chunks_cover: "0 < c \<Longrightarrow> (n::nat) \<le> ((n + c - 1) div c) * c"
proof -
  assume c: "0 < c"
  have "n + c - 1 = ((n + c - 1) div c) * c + (n + c - 1) mod c" by simp
  moreover have "(n + c - 1) mod c < c" using c by simp
  ultimately show ?thesis by linarith
qed

lemma concat_chunks:
  "0 < c \<Longrightarrow> concat (map (\<lambda>k. take c (drop (k * c) xs)) [0..<(length xs + c - 1) div c]) = xs"
  using chunks_cover[of c "length xs"] by (simp add: concat_take_drop)

lemma merge_results_closed:
  "0 < tot \<or> rs = [] \<Longrightarrow>
   merge_results app tot rs (st :: 'a sched_state) =
     Inr \<lparr> validated_records = validated_records st @ concat (map (\<lambda>r. fst (snd r)) rs),
           processed = processed st + sum_list (map (\<lambda>r. length (fst (snd r))) rs),
           total_success = total_success st + sum_list (map (\<lambda>r. fst (snd (snd r))) rs),
           total_failure = total_failure st + sum_list (map (\<lambda>r. snd (snd (snd r))) rs),
           effects = effects st
             @ progress_effects app tot (processed st) (map (\<lambda>r. length (fst (snd r))) rs) \<rparr>"
proof (induction rs arbitrary: st)
  case Nil
  then show ?case by simp
next
  case (Cons r rs)
  then have t: "0 < tot" by simp
  obtain i cv s f where r: "r = (i, cv, s, f)" by (cases r)
  show ?case
    using t by (simp add: r merge_chunk_def Let_def Cons.IH add.assoc)
qed

lemma enumerate_take: "take c (enumerate s xs) = enumerate s (take c xs)"
  by (induction xs arbitrary: s c) (auto simp: take_Cons split: nat.splits)

lemma enumerate_drop: "drop i (enumerate s xs) = enumerate (s + i) (drop i xs)"
  by (induction xs arbitrary: s i) (auto simp: drop_Cons split: nat.splits)

lemma progress_effects_chunks:
  "progress_effects app tot (min (j * c) (length xs))
      (map (\<lambda>k. length (take c (drop (k * c) xs))) [j..<m]) =
   concat (map (\<lambda>k. [Update_Progress (min ((k + 1) * c) (length xs)) tot]
                      @ safe_publish app (Progress (min ((k + 1) * c) (length xs))
                                            (Percent (min ((k + 1) * c) (length xs)) tot)))
             [j..<m])"
proof (induction "m - j" arbitrary: j)
  case 0
  then show ?case by simp
next
  case (Suc d)
  then have jm: "j < m" and d: "d = m - Suc j" by simp_all
  have step: "min (j * c) (length xs) + length (take c (drop (j * c) xs))
      = min (Suc j * c) (length xs)"
    by (simp add: min_def) arith
  have u: "[j..<m] = j # [Suc j..<m]" using jm by (simp add: upt_rec)
  show ?case
    unfolding u using Suc.hyps(1)[OF d] step by simp
qed

lemma sorted_chunk_starts: "0 < c \<Longrightarrow> sorted_wrt (<) (map fst (chunks_of c xs))"
  by (simp add: chunks_of_def comp_def sorted_wrt_map sorted_wrt_iff_nth_less)

lemma concat_batches:
  "0 < w \<Longrightarrow> concat (map (\<lambda>b. take w (drop b chunks)) (map (\<lambda>k. k * w) [0..<(length chunks + w - 1) div w]))
     = chunks"
  using concat_chunks[of w chunks] by (simp add: comp_def)

lemma chunk_scheduler_merge:
  assumes "0 < c" "0 < w" "\<And>b xs. mset (completion b xs) = mset xs"
  shows "chunk_scheduler lib completion app c w records rules di ucs mode effs0 =
     merge_results app (length records)
       (map (chunk_result lib rules di ucs mode) (chunks_of c records))
       \<lparr> validated_records = [], processed = 0, total_success = 0, total_failure = 0,
         effects = effs0 \<rparr>"
proof -
  have ch: "map (\<lambda>i. (i, take c (drop i records))) (map (\<lambda>k. k * c) [0..<(length records + c - 1) div c])
      = chunks_of c records"
    by (simp add: chunks_of_def num_chunks_def comp_def)
  have r1: "py_range_step (length records) c
      = Inr (map (\<lambda>k. k * c) [0..<(length records + c - 1) div c])"
    using assms(1) by (simp add: py_range_step_def)
  have r2: "py_range_step (length (chunks_of c records)) w
      = Inr (map (\<lambda>k. k * w) [0..<(length (chunks_of c records) + w - 1) div w])"
    using assms(2) by (simp add: py_range_step_def)
  show ?thesis
    unfolding chunk_scheduler_def Let_def r1 sum.case ch r2
      batches_loop_merge[OF assms(3) sorted_chunk_starts[OF assms(1)]]
      concat_batches[OF assms(2)]
    by (rule refl)
qed

lemma chunk_result_of_chunk:
  "chunk_result lib rules di ucs mode (k * c, take c (drop (k * c) records)) =
     (k * c,
      map (\<lambda>(idx, row). validate_row lib row idx rules di ucs mode)
        (take c (drop (k * c) (enumerate 1 records))),
      length (filter (row_valid lib rules di ucs mode) (take c (drop (k * c) (enumerate 1 records)))),
      length (filter (\<lambda>p. \<not> row_valid lib rules di ucs mode p)
                (take c (drop (k * c) (enumerate 1 records)))))"
  by (simp add: chunk_result_def validated_from_def enumerate_take enumerate_drop)

lemma sum_length_filter_chunks:
  "0 < c \<Longrightarrow> sum_list (map (\<lambda>k. length (filter P (take c (drop (k * c) xs)))) [0..<(length xs + c - 1) div c])
     = length (filter P xs)"
proof -
  assume c: "0 < c"
  have "length (filter P (concat (map (\<lambda>k. take c (drop (k * c) xs)) [0..<(length xs + c - 1) div c])))
      = sum_list (map (\<lambda>k. length (filter P (take c (drop (k * c) xs)))) [0..<(length xs + c - 1) div c])"
    by (simp add: filter_concat length_concat comp_def)
  then show ?thesis using concat_chunks[OF c, of xs] by simp
qed

lemma sum_length_chunks:
  "0 < c \<Longrightarrow> sum_list (map (\<lambda>k. length (take c (drop (k * c) xs))) [0..<(length xs + c - 1) div c])
     = length xs"
  using sum_length_filter_chunks[of c "\<lambda>x. True" xs] by simp

lemma map_concat_chunks:
  "0 < c \<Longrightarrow> concat (map (\<lambda>k. map f (take c (drop (k * c) xs))) [0..<(length xs + c - 1) div c])
     = map f xs"
proof -
  assume c: "0 < c"
  have "concat (map (\<lambda>k. map f (take c (drop (k * c) xs))) [0..<(length xs + c - 1) div c])
      = map f (concat (map (\<lambda>k. take c (drop (k * c) xs)) [0..<(length xs + c - 1) div c]))"
    by (simp add: map_concat comp_def)
  then show ?thesis using concat_chunks[OF c, of xs] by simp
qed

lemma chunk_scheduler_closed:
  assumes "0 < c" "0 < w" "\<And>b xs. mset (completion b xs) = mset xs"
  shows "chunk_scheduler lib completion app c w records rules di ucs mode effs0 =
     Inr \<lparr> validated_records = validated_from lib rules di ucs mode 1 records,
           processed = length records,
           total_success =
             length (filter (row_valid lib rules di ucs mode) (enumerate 1 records)),
           total_failure =
             length (filter (\<lambda>p. \<not> row_valid lib rules di ucs mode p) (enumerate 1 records)),
           effects = effs0 @
             concat (map (\<lambda>p. [Update_Progress p (length records)]
                               @ safe_publish app (Progress p (Percent p (length records))))
                       (progress_points c (length records))) \<rparr>"
proof -
  let ?n = "length records"
  let ?m = "(?n + c - 1) div c"
  let ?E = "enumerate 1 records"
  let ?rs = "map (chunk_result lib rules di ucs mode) (chunks_of c records)"
  have rs: "?rs = map (\<lambda>k. (k * c,
      map (\<lambda>(idx, row). validate_row lib row idx rules di ucs mode) (take c (drop (k * c) ?E)),
      length (filter (row_valid lib rules di ucs mode) (take c (drop (k * c) ?E))),
      length (filter (\<lambda>p. \<not> row_valid lib rules di ucs mode p) (take c (drop (k * c) ?E)))))
      [0..<?m]"
    by (simp add: chunks_of_def num_chunks_def comp_def chunk_result_of_chunk)
  have cond: "0 < ?n \<or> ?rs = []"
    using assms(1) by (cases "?n = 0") (simp_all add: chunks_of_def num_chunks_def)
  have lenE: "length ?E = ?n" by simp
  have v: "concat (map (\<lambda>r. fst (snd r)) ?rs) = validated_from lib rules di ucs mode 1 records"
    unfolding rs using map_concat_chunks[OF assms(1), of _ ?E]
    by (simp add: comp_def validated_from_def)
  have p: "sum_list (map (\<lambda>r. length (fst (snd r))) ?rs) = ?n"
    unfolding rs using sum_length_chunks[OF assms(1), of ?E] by (simp add: comp_def)
  have s: "sum_list (map (\<lambda>r. fst (snd (snd r))) ?rs)
      = length (filter (row_valid lib rules di ucs mode) ?E)"
    unfolding rs using sum_length_filter_chunks[OF assms(1), of _ ?E] by (simp add: comp_def)
  have f: "sum_list (map (\<lambda>r. snd (snd (snd r))) ?rs)
      = length (filter (\<lambda>p. \<not> row_valid lib rules di ucs mode p) ?E)"
    unfolding rs using sum_length_filter_chunks[OF assms(1), of _ ?E] by (simp add: comp_def)
  have lens: "map (\<lambda>r. length (fst (snd r))) ?rs
      = map (\<lambda>k. length (take c (drop (k * c) ?E))) [0..<?m]"
    unfolding rs by (simp add: comp_def)
  have e: "progress_effects app ?n 0 (map (\<lambda>r. length (fst (snd r))) ?rs)
      = concat (map (\<lambda>p. [Update_Progress p ?n] @ safe_publish app (Progress p (Percent p ?n)))
                  (progress_points c ?n))"
    unfolding lens using progress_effects_chunks[of app ?n 0 c ?E ?m]
    by (simp add: progress_points_def num_chunks_def comp_def)
  show ?thesis
    unfolding chunk_scheduler_merge[OF assms] merge_results_closed[OF cond] v p s f
    using e by simp
qed

lemma chunk_start_less:
  assumes "0 < c" "j < (n + c - 1) div c"
  shows "j * c < (n::nat)"
proof -
  have "Suc j \<le> (n + c - 1) div c" using assms(2) by simp
  then have "Suc j * c \<le> ((n + c - 1) div c) * c" by (rule mult_le_mono1)
  also have "\<dots> \<le> n + c - 1" by simp
  finally have "j * c + c \<le> n + c - 1" by simp
  then show ?thesis using assms(1) by linarith
qed

lemma progress_points_increasing:
  assumes "0 < c"
  shows "sorted_wrt (<) (progress_points c n)"
proof -
  have "min ((i + 1) * c) n < min ((j + 1) * c) n"
    if "i < j" "j < num_chunks c n" for i j
  proof -
    have jn: "j * c < n" using chunk_start_less[OF assms] that(2) by (simp add: num_chunks_def)
    have a: "(i + 1) * c \<le> j * c" using that(1) by (intro mult_le_mono1) simp
    have b: "j * c < (j + 1) * c" using assms by simp
    have "a \<le> d \<Longrightarrow> d < b \<Longrightarrow> d < n \<Longrightarrow> min a n < min b n" for a b d :: nat
      by arith
    from this[OF a b jn] show ?thesis .
  qed
  then show ?thesis
    by (simp add: progress_points_def sorted_wrt_map sorted_wrt_iff_nth_less)
qed

lemma validate_row_keeps:
  "k \<noteq> ''Valid'' \<Longrightarrow> k \<noteq> ''Remarks'' \<Longrightarrow>
   map_of (validate_row lib row idx rules di ucs mode) k = map_of (normalize row) k"
  by (simp add: validate_row_def Let_def AList.update_conv')

lemma reverse_is_perm: "\<forall>b xs. mset (in_reverse_order b xs) = mset xs"
  by (simp add: in_reverse_order_def)

lemma dispatch_is_perm: "\<forall>b xs. mset (in_dispatch_order b xs) = mset xs"
  by (simp add: in_dispatch_order_def)

lemmas row_eval = five_rows_def row_valid_def row_errors_def duplicate_errors_def eval_defs

text \<open>
  Claim C1. For every chunk size and worker width above zero, and whatever the order in
  which the tasks of a batch finish, the scheduler returns, and its success and failure
  counts add up to the number of input rows, which is also its processed count. The success
  count is the number of rows without violation. \<open>validate_chunk\<close> itself returns one
  validated row per row of its slice and counts each row once, as a success or as a failure.
\<close>

theorem counts_add_up:
  assumes "0 < chunk_size" and "0 < workers"
    and "\<forall>b xs. mset (completion b xs) = mset xs"
  shows "(\<exists>st. chunk_scheduler lib completion app chunk_size workers records rules dup_index
             unique_cols unique_mode effs0 = Inr st \<and>
           total_success st + total_failure st = length records \<and>
           processed st = length records \<and>
           total_success st
             = length (filter (row_valid lib rules dup_index unique_cols unique_mode)
                         (enumerate 1 records))) \<and>
     (\<exists>validated success failure.
         validate_chunk lib records_slice start_index rules dup_index unique_cols unique_mode
           = Inr (validated, success, failure) \<and>
         success + failure = length records_slice \<and> length validated = length records_slice)"
proof -
  have perm: "\<And>b xs. mset (completion b xs) = mset xs" using assms(3) by simp
  have "length (filter (row_valid lib rules dup_index unique_cols unique_mode) (enumerate 1 records))
      + length (filter (\<lambda>p. \<not> row_valid lib rules dup_index unique_cols unique_mode p)
                  (enumerate 1 records)) = length records"
    using sum_length_filter_compl[of _ "enumerate 1 records"] by simp
  moreover have "length (filter (row_valid lib rules dup_index unique_cols unique_mode)
        (enumerate start_index records_slice))
      + length (filter (\<lambda>p. \<not> row_valid lib rules dup_index unique_cols unique_mode p)
                  (enumerate start_index records_slice)) = length records_slice"
    using sum_length_filter_compl[of _ "enumerate start_index records_slice"] by simp
  ultimately show ?thesis
    unfolding chunk_scheduler_closed[OF assms(1,2) perm] validate_chunk_def
      validate_chunk_loop_result
    by (simp add: validated_from_def)
qed

text \<open>Five rows, chunk size 2, width 2, the tasks of each batch finishing in reverse.\<close>

theorem counts_add_up_witness:
  "\<exists>st. chunk_scheduler stub_lib in_reverse_order True 2 2 five_rows scenario_rules [] []
           ''ignore'' [] = Inr st \<and>
        total_success st = 3 \<and> total_failure st = 2 \<and> processed st = 5"
proof -
  have c: "(0::nat) < 2" by simp
  from counts_add_up[OF c c reverse_is_perm, of stub_lib True five_rows scenario_rules "[]" "[]"
      "''ignore''" "[]" "[]" 1]
  obtain st where st: "chunk_scheduler stub_lib in_reverse_order True 2 2 five_rows scenario_rules
        [] [] ''ignore'' [] = Inr st"
    and sum: "total_success st + total_failure st = length five_rows"
    and p: "processed st = length five_rows"
    and s: "total_success st = length (filter (row_valid stub_lib scenario_rules [] [] ''ignore'')
                         (enumerate 1 five_rows))"
    by blast
  have s3: "total_success st = 3" unfolding s by (simp add: row_eval)
  have l: "length five_rows = 5" by (simp add: five_rows_def)
  have f2: "total_failure st = 2" using sum s3 l by simp
  show ?thesis using st s3 f2 p l by auto
qed

text \<open>
  Claim C2. For every chunk size and worker width above zero, and whatever the order in
  which the tasks of a batch finish, the validated rows of the scheduler are the input rows
  in input order: the row at position \<open>i\<close> is the result of \<open>_validate_row\<close> on input row
  \<open>i\<close> with ordinal \<open>i + 1\<close>, and carries the (lowercased) fields of that input row.
\<close>

theorem output_order_is_input_order:
  assumes "0 < chunk_size" and "0 < workers"
    and "\<forall>b xs. mset (completion b xs) = mset xs"
  shows "\<exists>st. chunk_scheduler lib completion app chunk_size workers records rules dup_index
             unique_cols unique_mode effs0 = Inr st \<and>
     validated_records st =
       map (\<lambda>(idx, row). validate_row lib row idx rules dup_index unique_cols unique_mode)
         (enumerate 1 records) \<and>
     length (validated_records st) = length records \<and>
     (\<forall>i < length records.
        validated_records st ! i =
          validate_row lib (records ! i) (Suc i) rules dup_index unique_cols unique_mode \<and>
        (\<forall>k. k \<noteq> ''Valid'' \<and> k \<noteq> ''Remarks'' \<longrightarrow>
           map_of (validated_records st ! i) k = map_of (normalize (records ! i)) k))"
proof -
  have perm: "\<And>b xs. mset (completion b xs) = mset xs" using assms(3) by simp
  show ?thesis
    unfolding chunk_scheduler_closed[OF assms(1,2) perm]
    by (simp add: validated_from_def nth_enumerate_eq validate_row_keeps)
qed

text \<open>The same run: the ages come out in input order.\<close>

theorem output_order_is_input_order_witness:
  "\<exists>st. chunk_scheduler stub_lib in_reverse_order True 2 2 five_rows scenario_rules [] []
           ''ignore'' [] = Inr st \<and>
        map (\<lambda>r. dict_get r ''age'') (validated_records st)
          = [VStr ''1'', VStr ''x'', VStr ''3'', VStr '''', VStr ''5''] \<and>
        map (\<lambda>r. dict_get r ''Valid'') (validated_records st)
          = [VStr ''Success'', VStr ''Fail'', VStr ''Success'', VStr ''Fail'', VStr ''Success'']"
proof -
  have c: "(0::nat) < 2" by simp
  from output_order_is_input_order[OF c c reverse_is_perm, of stub_lib True five_rows
      scenario_rules "[]" "[]" "''ignore''" "[]"]
  obtain st where st: "chunk_scheduler stub_lib in_reverse_order True 2 2 five_rows scenario_rules
        [] [] ''ignore'' [] = Inr st"
    and v: "validated_records st =
       map (\<lambda>(idx, row). validate_row stub_lib row idx scenario_rules [] [] ''ignore'')
         (enumerate 1 five_rows)"
    by blast
  have a: "map (\<lambda>r. dict_get r ''age'') (validated_records st)
          = [VStr ''1'', VStr ''x'', VStr ''3'', VStr '''', VStr ''5'']"
    unfolding v by (simp add: validate_row_def Let_def row_eval)
  have b: "map (\<lambda>r. dict_get r ''Valid'') (validated_records st)
          = [VStr ''Success'', VStr ''Fail'', VStr ''Success'', VStr ''Fail'', VStr ''Success'']"
    unfolding v by (simp add: validate_row_def Let_def row_eval)
  show ?thesis by (rule exI[of _ st]) (simp add: st a b)
qed

text \<open>
  Claim C8, as amended. The merge loop makes one \<open>update_progress\<close> call and one
  \<open>safe_publish\<close> call for every chunk, not one for every batch: after a batch has finished,
  each of its chunks is reported, in ascending start order. The payload holds the processed
  count and the percentage computed from it and the total. Over the whole run there are as
  many reports as chunks, and their processed counts, \<open>min (k * C) N\<close> for the \<open>k\<close>-th, are
  strictly increasing. The event is published only when \<open>app\<close> is present.
\<close>

theorem progress_per_chunk:
  assumes "0 < chunk_size" and "0 < workers"
    and "\<forall>b xs. mset (completion b xs) = mset xs"
  shows "\<exists>st. chunk_scheduler lib completion app chunk_size workers records rules dup_index
             unique_cols unique_mode effs0 = Inr st \<and>
     effects st = effs0 @
       concat (map (\<lambda>p. [Update_Progress p (length records)]
                         @ safe_publish app (Progress p (Percent p (length records))))
                 (progress_points chunk_size (length records))) \<and>
     length (progress_points chunk_size (length records))
       = num_chunks chunk_size (length records) \<and>
     sorted_wrt (<) (progress_points chunk_size (length records))"
proof -
  have perm: "\<And>b xs. mset (completion b xs) = mset xs" using assms(3) by simp
  show ?thesis
    unfolding chunk_scheduler_closed[OF assms(1,2) perm]
    using progress_points_increasing[OF assms(1)]
    by (simp add: progress_points_def)
qed

text \<open>The same run: three chunks in two batches give three reports.\<close>

theorem progress_per_chunk_witness:
  "\<exists>st. chunk_scheduler stub_lib in_reverse_order True 2 2 five_rows scenario_rules [] []
           ''ignore'' [] = Inr st \<and>
        effects st = [Update_Progress 2 5, Publish (Progress 2 (Percent 2 5)),
                      Update_Progress 4 5, Publish (Progress 4 (Percent 4 5)),
                      Update_Progress 5 5, Publish (Progress 5 (Percent 5 5))]"
proof -
  have c: "(0::nat) < 2" by simp
  from progress_per_chunk[OF c c reverse_is_perm, of stub_lib True five_rows
      scenario_rules "[]" "[]" "''ignore''" "[]"]
  obtain st where st: "chunk_scheduler stub_lib in_reverse_order True 2 2 five_rows scenario_rules
        [] [] ''ignore'' [] = Inr st"
    and e: "effects st = [] @
       concat (map (\<lambda>p. [Update_Progress p (length five_rows)]
                         @ safe_publish True (Progress p (Percent p (length five_rows))))
                 (progress_points 2 (length five_rows)))"
    by blast
  have l: "length five_rows = 5" by (simp add: five_rows_def)
  have pp: "progress_points 2 5 = [2, 4, 5]"
    by (simp add: progress_points_def num_chunks_def upt_rec)
  have "effects st = [Update_Progress 2 5, Publish (Progress 2 (Percent 2 5)),
                      Update_Progress 4 5, Publish (Progress 4 (Percent 4 5)),
                      Update_Progress 5 5, Publish (Progress 5 (Percent 5 5))]"
    unfolding e l pp by (simp add: safe_publish_def)
  then show ?thesis using st by blast
qed

text \<open>
  Claim C8 as stated fails with the constants of the module: 5001 rows make two chunks,
  which the width of 4 puts in a single batch, and two progress events are published.
\<close>

theorem one_event_per_batch_counterexample:
  "py_range_step 5001 CHUNK_SIZE = Inr [0, 5000] \<and>
   py_range_step 2 WORKERS = Inr [0] \<and>
   progress_events (sched_effects
       (chunk_scheduler stub_lib in_dispatch_order True CHUNK_SIZE WORKERS
          (replicate 5001 [(''age'', VStr ''30'')]) scenario_rules [] [] ''ignore'' []))
     = [Progress 5000 (Percent 5000 5001), Progress 5001 (Percent 5001 5001)]"
proof -
  have c: "0 < CHUNK_SIZE" and w: "0 < WORKERS" by (simp_all add: CHUNK_SIZE_def WORKERS_def)
  have perm: "\<And>b xs. mset (in_dispatch_order b xs) = mset xs"
    by (simp add: in_dispatch_order_def)
  have pp: "progress_points CHUNK_SIZE 5001 = [5000, 5001]"
    by (simp add: progress_points_def num_chunks_def CHUNK_SIZE_def upt_rec)
  have r1: "py_range_step 5001 CHUNK_SIZE = Inr [0, 5000]"
    by (simp add: py_range_step_def CHUNK_SIZE_def upt_rec)
  have r2: "py_range_step 2 WORKERS = Inr [0]"
    by (simp add: py_range_step_def WORKERS_def upt_rec)
  have e: "progress_events (sched_effects
       (chunk_scheduler stub_lib in_dispatch_order True CHUNK_SIZE WORKERS
          (replicate 5001 [(''age'', VStr ''30'')]) scenario_rules [] [] ''ignore'' []))
     = [Progress 5000 (Percent 5000 5001), Progress 5001 (Percent 5001 5001)]"
    unfolding chunk_scheduler_closed[OF c w perm]
    by (simp add: sched_effects_def pp safe_publish_def)
  show ?thesis using r1 r2 e by blast
qed

section \<open>The pipeline\<close>

lemmas env_defs = csv_env_def scenario_doc_def bad_regex_doc_def in_reverse_order_def
  in_dispatch_order_def read_records_def

lemma env_app_csv: "env_app (csv_env rows doc) = True" "env_lib (csv_env rows doc) = stub_lib"
  by (simp_all add: csv_env_def)

lemma build_duplicate_index_empty: "build_duplicate_index [] ucs = Inr []"
  by (simp add: build_duplicate_index_def)

lemma chunk_scheduler_no_rows:
  "0 < c \<Longrightarrow> 0 < w \<Longrightarrow>
   chunk_scheduler lib completion app c w [] rules di ucs mode effs0 =
     Inr \<lparr> validated_records = [], processed = 0, total_success = 0, total_failure = 0,
           effects = effs0 \<rparr>"
  by (simp add: chunk_scheduler_def py_range_step_def)

text \<open>
  Claim C6, on the code. When the reader yields no row and the rules prepare, the writer
  returns no artifact, and the pipeline then calls \<open>getvalue\<close> on that missing artifact: the
  run ends in the \<open>except\<close> handler, which records the status failed with
  \<open>AttributeError\<close>, instead of completing with three zero counts.
\<close>

theorem empty_input_run_fails:
  assumes "read_records env = Inr []"
    and "stored_rules env = Some cfg"
    and "\<not> doc_falsy cfg"
    and "prep_rules_from_dict (env_lib env) cfg = Inr prepared"
  shows "write_validated_excel_stream ([] :: 'a row list) = None \<and>
     run_excel_validation_pipeline env =
       ([Audit_Status RUNNING, Read_S3, Read_Records 0, Update_Progress 0 0]
          @ safe_publish (env_app env) (Init 0)
          @ [Audit_Failed AttributeError] @ safe_publish (env_app env) (Error AttributeError),
        Inl AttributeError)"
proof -
  obtain rules ucs mode where p: "prepared = (rules, ucs, mode)" by (cases prepared)
  have v: "validate_records env CHUNK_SIZE WORKERS [] effs =
      Inr \<lparr> validated_records = [], processed = 0, total_success = 0, total_failure = 0,
            effects = effs \<rparr>" for effs
    using assms(2,3,4) p
    by (simp add: validate_records_def build_duplicate_index_empty chunk_scheduler_no_rows
        CHUNK_SIZE_def WORKERS_def)
  show ?thesis
    by (simp add: run_excel_validation_pipeline_def pipeline_body_def assms(1) v
        upload_results_def write_validated_excel_stream_def Let_def)
qed

text \<open>A delimited-text file that holds a header line only.\<close>

theorem empty_input_run_fails_witness:
  "read_records (csv_env [] (Some scenario_doc)) = Inr [] \<and>
   prep_rules_from_dict stub_lib scenario_doc = Inr (scenario_rules, [''email''], ''fail_all'') \<and>
   run_excel_validation_pipeline (csv_env [] (Some scenario_doc)) =
     ([Audit_Status RUNNING, Read_S3, Read_Records 0, Update_Progress 0 0, Publish (Init 0),
       Audit_Failed AttributeError, Publish (Error AttributeError)],
      Inl AttributeError)"
proof -
  let ?env = "csv_env [] (Some scenario_doc)"
  have h1: "read_records ?env = Inr []" by (simp add: env_defs)
  have h2: "stored_rules ?env = Some scenario_doc" by (simp add: env_defs)
  have h3: "\<not> doc_falsy scenario_doc" by (simp add: doc_falsy_def scenario_doc_def)
  have h4: "prep_rules_from_dict (env_lib ?env) scenario_doc
      = Inr (scenario_rules, [''email''], ''fail_all'')"
    by (simp add: env_defs prep_rules_from_dict_def compile_rule_def scenario_rules_def
        py_lower_def lower_char_def)
  have h4': "prep_rules_from_dict stub_lib scenario_doc
      = Inr (scenario_rules, [''email''], ''fail_all'')"
    using h4 by (simp add: env_app_csv)
  from empty_input_run_fails[OF h1 h2 h3 h4, THEN conjunct2]
  have "run_excel_validation_pipeline ?env =
     ([Audit_Status RUNNING, Read_S3, Read_Records 0, Update_Progress 0 0, Publish (Init 0),
       Audit_Failed AttributeError, Publish (Error AttributeError)],
      Inl AttributeError)"
    by (simp add: safe_publish_def env_app_csv)
  then show ?thesis using h1 h4' by blast
qed

lemma compile_rule_fails:
  "raw_regex rule = Some p \<Longrightarrow> p \<noteq> [] \<Longrightarrow> re_compile lib p = Inl e
   \<Longrightarrow> compile_rule lib rule = Inl e"
  by (simp add: compile_rule_def)

lemma compile_rule_InlD:
  "compile_rule lib rule = Inl e \<Longrightarrow>
   \<exists>p. raw_regex rule = Some p \<and> p \<noteq> [] \<and> re_compile lib p = Inl e"
  by (auto simp: compile_rule_def split: option.splits if_splits sum.splits)

lemma prep_columns_fails:
  "(field, rule) \<in> set items \<Longrightarrow> compile_rule lib rule = Inl e \<Longrightarrow>
   \<exists>e' f' r'. prep_columns lib items acc = Inl e' \<and> (f', r') \<in> set items
      \<and> compile_rule lib r' = Inl e'"
proof (induction items arbitrary: acc)
  case Nil
  then show ?case by simp
next
  case (Cons it items)
  obtain f0 r0 where it: "it = (f0, r0)" by (cases it)
  show ?case
  proof (cases "compile_rule lib r0")
    case (Inl e0)
    then show ?thesis using it by auto
  next
    case (Inr c0)
    then have "(field, rule) \<in> set items" using Cons.prems it by auto
    from Cons.IH[OF this Cons.prems(2)] show ?thesis using Inr it by fastforce
  qed
qed

text \<open>
  Claim C7, as amended. When a column of the stored rule document holds a malformed
  pattern, \<open>prep_rules_from_dict\<close> fails with the exception that \<open>re.compile\<close> raises for
  a malformed pattern of the document, before any row is validated: the run makes no
  progress report and no upload, and is recorded as failed with that exception. By then the
  input has been read in full: the rows are loaded, counted and announced before the rules
  are fetched and compiled.
\<close>

theorem malformed_regex_fails_at_prep:
  assumes "read_records env = Inr records"
    and "stored_rules env = Some cfg"
    and "doc_columns cfg = Some columns"
    and "(field, rule) \<in> set columns"
    and "raw_regex rule = Some p" and "p \<noteq> []"
    and "re_compile (env_lib env) p = Inl e"
  shows "\<exists>e' field' rule' p'.
     (field', rule') \<in> set columns \<and> raw_regex rule' = Some p' \<and> p' \<noteq> [] \<and>
     re_compile (env_lib env) p' = Inl e' \<and>
     prep_rules_from_dict (env_lib env) cfg = Inl e' \<and>
     run_excel_validation_pipeline env =
       ([Audit_Status RUNNING, Read_S3, Read_Records (length records),
         Update_Progress 0 (length records)]
          @ safe_publish (env_app env) (Init (length records))
          @ [Audit_Failed e'] @ safe_publish (env_app env) (Error e'),
        Inl e')"
proof -
  have c: "compile_rule (env_lib env) rule = Inl e"
    using assms(5,6,7) by (rule compile_rule_fails)
  from prep_columns_fails[OF assms(4) c, of "[]"]
  obtain e' f' r' where pc: "prep_columns (env_lib env) columns [] = Inl e'"
    and m: "(f', r') \<in> set columns" and c': "compile_rule (env_lib env) r' = Inl e'"
    by blast
  from compile_rule_InlD[OF c']
  obtain p' where p': "raw_regex r' = Some p'" "p' \<noteq> []" "re_compile (env_lib env) p' = Inl e'"
    by blast
  have prep: "prep_rules_from_dict (env_lib env) cfg = Inl e'"
    using pc assms(3) by (simp add: prep_rules_from_dict_def)
  have nf: "\<not> doc_falsy cfg" using assms(3) by (simp add: doc_falsy_def)
  have v: "validate_records env CHUNK_SIZE WORKERS records effs = Inl (e', effs)" for effs
    using assms(2) nf prep by (simp add: validate_records_def)
  have run: "run_excel_validation_pipeline env =
       ([Audit_Status RUNNING, Read_S3, Read_Records (length records),
         Update_Progress 0 (length records)]
          @ safe_publish (env_app env) (Init (length records))
          @ [Audit_Failed e'] @ safe_publish (env_app env) (Error e'),
        Inl e')"
    by (simp add: run_excel_validation_pipeline_def pipeline_body_def assms(1) v Let_def)
  show ?thesis using m p' prep run by blast
qed

text \<open>Five rows and the pattern \<open>(\<close>.\<close>

theorem malformed_regex_fails_at_prep_witness:
  "read_records (csv_env five_rows (Some bad_regex_doc)) = Inr five_rows \<and>
   re_compile stub_lib ''('' = Inl ReError \<and>
   prep_rules_from_dict stub_lib bad_regex_doc = Inl ReError \<and>
   run_excel_validation_pipeline (csv_env five_rows (Some bad_regex_doc)) =
     ([Audit_Status RUNNING, Read_S3, Read_Records 5, Update_Progress 0 5, Publish (Init 5),
       Audit_Failed ReError, Publish (Error ReError)],
      Inl ReError)"
proof -
  let ?env = "csv_env five_rows (Some bad_regex_doc)"
  let ?rule = "\<lparr> raw_required = False, raw_type = Some ''str'', raw_regex = Some ''('' \<rparr>"
  have h1: "read_records ?env = Inr five_rows" by (simp add: env_defs)
  have h2: "stored_rules ?env = Some bad_regex_doc" by (simp add: csv_env_def)
  have h3: "doc_columns bad_regex_doc = Some [(''age'', ?rule)]" by (simp add: bad_regex_doc_def)
  have h4: "(''age'', ?rule) \<in> set [(''age'', ?rule)]" by simp
  have h5: "raw_regex ?rule = Some ''(''" by simp
  have h6: "''('' \<noteq> []" by simp
  have h7: "re_compile (env_lib ?env) ''('' = Inl ReError"
    by (simp add: env_app_csv stub_lib_sel)
  from malformed_regex_fails_at_prep[OF h1 h2 h3 h4 h5 h6 h7]
  obtain e' p' where e: "re_compile (env_lib ?env) p' = Inl e'"
    and prep: "prep_rules_from_dict (env_lib ?env) bad_regex_doc = Inl e'"
    and run: "run_excel_validation_pipeline ?env =
       ([Audit_Status RUNNING, Read_S3, Read_Records (length five_rows),
         Update_Progress 0 (length five_rows)]
          @ safe_publish (env_app ?env) (Init (length five_rows))
          @ [Audit_Failed e'] @ safe_publish (env_app ?env) (Error e'),
        Inl e')"
    by blast
  have e': "e' = ReError"
    using e by (simp add: env_app_csv stub_lib_sel split: if_splits)
  have l: "length five_rows = 5" by (simp add: five_rows_def)
  have prep': "prep_rules_from_dict stub_lib bad_regex_doc = Inl ReError"
    using prep e' by (simp add: env_app_csv)
  have run': "run_excel_validation_pipeline ?env =
     ([Audit_Status RUNNING, Read_S3, Read_Records 5, Update_Progress 0 5, Publish (Init 5),
       Audit_Failed ReError, Publish (Error ReError)],
      Inl ReError)"
    unfolding run e' l by (simp add: env_app_csv safe_publish_def)
  have h7': "re_compile stub_lib ''('' = Inl ReError" by (simp add: stub_lib_sel)
  show ?thesis using h1 h7' prep' run' by blast
qed

text \<open>
  Claim C7 as stated fails: with two rows in the file and the pattern \<open>(\<close> in the rules,
  the run fails after both rows have been read.
\<close>

theorem malformed_regex_counterexample:
  "prep_rules_from_dict stub_lib bad_regex_doc = Inl ReError \<and>
   run_excel_validation_pipeline (csv_env scenario_rows (Some bad_regex_doc)) =
     ([Audit_Status RUNNING, Read_S3, Read_Records 2, Update_Progress 0 2, Publish (Init 2),
       Audit_Failed ReError, Publish (Error ReError)],
      Inl ReError) \<and>
   Read_Records 2 \<in> set (fst (run_excel_validation_pipeline
                                (csv_env scenario_rows (Some bad_regex_doc))))"
proof -
  have p: "prep_rules_from_dict stub_lib bad_regex_doc = Inl ReError"
    by (simp add: prep_rules_from_dict_def bad_regex_doc_def compile_rule_def stub_lib_sel)
  let ?env = "csv_env scenario_rows (Some bad_regex_doc)"
  have rr: "read_records ?env = Inr scenario_rows" by (simp add: csv_env_def read_records_def)
  have sr: "stored_rules ?env = Some bad_regex_doc" by (simp add: csv_env_def)
  have nf: "\<not> doc_falsy bad_regex_doc" by (simp add: doc_falsy_def bad_regex_doc_def)
  have v: "validate_records ?env CHUNK_SIZE WORKERS scenario_rows effs = Inl (ReError, effs)"
    for effs
    by (simp add: validate_records_def sr nf env_app_csv p)
  have l: "length scenario_rows = 2" by (simp add: scenario_rows_def)
  have r: "run_excel_validation_pipeline ?env =
     ([Audit_Status RUNNING, Read_S3, Read_Records 2, Update_Progress 0 2, Publish (Init 2),
       Audit_Failed ReError, Publish (Error ReError)],
      Inl ReError)"
    by (simp add: run_excel_validation_pipeline_def pipeline_body_def rr v l env_app_csv
        safe_publish_def Let_def)
  show ?thesis unfolding r using p by simp
qed

end
